theory Spec2Isabelle
  imports Complex_Main
begin

section \<open>Python errors\<close>

text \<open>
  Every exception the modelled code can raise is a value; a fallible function returns
  \<open>py_error + 'a\<close> with \<open>Inl\<close> for the raised exception.
\<close>

datatype py_error =
    ValueError
  | IndexError
  | ZeroDivisionError
  | FileNotFoundError
  | KeyboardInterrupt
  | TransportError string
  | FitError string

section \<open>ExposureController: \<open>run\<close>, lines 216 to 232 of \<open>run_DroneSpec.py\<close>\<close>

text \<open>
  The spectrum \<open>y\<close> is a numpy array, so \<open>max_int = np.max(y)\<close> is a numpy scalar and
  \<open>target_int / max_int\<close> is numpy's division: it does not raise on a zero divisor, it
  returns an infinity or a NaN. The type \<open>npfloat\<close> keeps these special values. Finite
  values are exact reals: rounding and overflow of the 64-bit format are not modelled,
  and neither is the sign of a zero.
\<close>

datatype npfloat = Fin real | PInf | NInf | NaN

fun np_div :: "npfloat \<Rightarrow> npfloat \<Rightarrow> npfloat" where
  "np_div (Fin a) (Fin b) =
     (if b = 0 then (if a = 0 then NaN else if 0 < a then PInf else NInf)
      else Fin (a / b))"
| "np_div (Fin a) PInf = Fin 0"
| "np_div (Fin a) NInf = Fin 0"
| "np_div PInf (Fin b) = (if 0 \<le> b then PInf else NInf)"
| "np_div NInf (Fin b) = (if 0 \<le> b then NInf else PInf)"
| "np_div _ _ = NaN"

fun np_mul :: "npfloat \<Rightarrow> npfloat \<Rightarrow> npfloat" where
  "np_mul (Fin a) (Fin b) = Fin (a * b)"
| "np_mul (Fin a) PInf = (if a = 0 then NaN else if 0 < a then PInf else NInf)"
| "np_mul (Fin a) NInf = (if a = 0 then NaN else if 0 < a then NInf else PInf)"
| "np_mul PInf (Fin b) = (if b = 0 then NaN else if 0 < b then PInf else NInf)"
| "np_mul NInf (Fin b) = (if b = 0 then NaN else if 0 < b then NInf else PInf)"
| "np_mul PInf PInf = PInf"
| "np_mul PInf NInf = NInf"
| "np_mul NInf PInf = NInf"
| "np_mul NInf NInf = PInf"
| "np_mul _ _ = NaN"

fun np_sub :: "npfloat \<Rightarrow> npfloat \<Rightarrow> npfloat" where
  "np_sub (Fin a) (Fin b) = Fin (a - b)"
| "np_sub (Fin a) PInf = NInf"
| "np_sub (Fin a) NInf = PInf"
| "np_sub PInf (Fin b) = PInf"
| "np_sub NInf (Fin b) = NInf"
| "np_sub PInf NInf = PInf"
| "np_sub NInf PInf = NInf"
| "np_sub _ _ = NaN"

text \<open>\<open>x ** 2\<close> and \<open>x ** 0.5\<close> on numpy floats.\<close>

fun np_square :: "npfloat \<Rightarrow> npfloat" where
  "np_square (Fin a) = Fin (a\<^sup>2)"
| "np_square PInf = PInf"
| "np_square NInf = PInf"
| "np_square NaN = NaN"

fun np_sqrt :: "npfloat \<Rightarrow> npfloat" where
  "np_sqrt (Fin a) = (if a < 0 then NaN else Fin (sqrt a))"
| "np_sqrt PInf = PInf"
| "np_sqrt NInf = PInf"
| "np_sqrt NaN = NaN"

text \<open>Comparisons: every comparison with a NaN is false.\<close>

fun np_lt :: "npfloat \<Rightarrow> npfloat \<Rightarrow> bool" where
  "np_lt (Fin a) (Fin b) = (a < b)"
| "np_lt (Fin a) PInf = True"
| "np_lt NInf (Fin b) = True"
| "np_lt NInf PInf = True"
| "np_lt _ _ = False"

fun np_eq :: "npfloat \<Rightarrow> npfloat \<Rightarrow> bool" where
  "np_eq (Fin a) (Fin b) = (a = b)"
| "np_eq PInf PInf = True"
| "np_eq NInf NInf = True"
| "np_eq _ _ = False"

text \<open>
  Python's builtin \<open>min\<close> over the elements of a non-empty sequence: it keeps the first
  element and replaces it by a later one only when that one compares smaller.
\<close>

fun py_min :: "npfloat \<Rightarrow> npfloat list \<Rightarrow> npfloat" where
  "py_min m [] = m"
| "py_min m (x # xs) = py_min (if np_lt x m then x else m) xs"

text \<open>\<open>np.where(mask)[0][0]\<close>: the first index at which the mask holds, if any.\<close>

fun first_index :: "('a \<Rightarrow> bool) \<Rightarrow> 'a list \<Rightarrow> nat option" where
  "first_index P [] = None"
| "first_index P (x # xs) =
     (if P x then Some 0 else map_option Suc (first_index P xs))"


text \<open>
  Lines 216 to 228. \<open>target_int\<close> and \<open>spectro.integration_time\<close> are Python integers
  and \<open>int_times\<close> is an integer array; \<open>max_int\<close> is the numpy scalar \<open>np.max(y)\<close>.
  \<open>min(diff)\<close> raises \<open>ValueError\<close> on an empty ladder and \<open>[0][0]\<close> raises
  \<open>IndexError\<close> when no entry equals the minimum (a NaN).
\<close>

definition scale_of :: "int \<Rightarrow> npfloat \<Rightarrow> npfloat" where
  "scale_of target_int max_int = np_div (Fin (of_int target_int)) max_int"

definition int_time_of :: "int \<Rightarrow> int \<Rightarrow> npfloat \<Rightarrow> npfloat" where
  "int_time_of target_int integration_time max_int =
     np_mul (Fin (of_int integration_time)) (scale_of target_int max_int)"

definition diff_of :: "int list \<Rightarrow> npfloat \<Rightarrow> npfloat list" where
  "diff_of int_times int_time =
     map (\<lambda>t. np_sqrt (np_square (np_sub (Fin (of_int t)) int_time))) int_times"

definition new_int_time :: "int \<Rightarrow> int list \<Rightarrow> int \<Rightarrow> npfloat \<Rightarrow> py_error + int" where
  "new_int_time target_int int_times integration_time max_int =
     (let int_time = int_time_of target_int integration_time max_int;
          diff = diff_of int_times int_time
      in case diff of
           [] \<Rightarrow> Inl ValueError
         | d # ds \<Rightarrow>
             (case first_index (\<lambda>x. np_eq x (py_min d ds)) diff of
                None \<Rightarrow> Inl IndexError
              | Some idx \<Rightarrow> Inr (int_times ! idx)))"

text \<open>
  Lines 230 to 232: the spectrometer is reconfigured only when the value changed. The
  result is the new \<open>spectro.integration_time\<close> and whether the hardware was updated.
\<close>

definition update_exposure :: "int \<Rightarrow> int list \<Rightarrow> int \<Rightarrow> npfloat \<Rightarrow> py_error + (int \<times> bool)" where
  "update_exposure target_int int_times integration_time max_int =
     (case new_int_time target_int int_times integration_time max_int of
        Inl e \<Rightarrow> Inl e
      | Inr v \<Rightarrow> Inr (v, v \<noteq> integration_time))"


section \<open>AcquisitionLoop and FitDispatcher: \<open>run\<close>, lines 186 to 264\<close>

text \<open>\<open>f'{i:05d}'\<close>: the decimal digits of \<open>i\<close>, padded with zeros to five places.\<close>

fun digits :: "nat \<Rightarrow> string" where
  "digits n = (if n < 10 then [''0123456789'' ! n]
               else digits (n div 10) @ [''0123456789'' ! (n mod 10)])"

definition format_05d :: "nat \<Rightarrow> string" where
  "format_05d n = replicate (5 - length (digits n)) (CHR ''0'') @ digits n"

definition spec_fname_of :: "string \<Rightarrow> nat \<Rightarrow> string" where
  "spec_fname_of fpath n = fpath @ ''/spectrum_'' @ format_05d n @ ''.txt''"

text \<open>
  A value put on the queue is the list \<open>res\<close> of a fit job or the string \<open>'kill'\<close>.
  The entries of \<open>res\<close> are Python strings, integers and floats.
\<close>

datatype pyval = PyStr string | PyInt int | PyFloat real

datatype msg = Kill | Res "pyval list"

text \<open>What the acquisition process does that another process or the operator can see.\<close>

datatype event =
    Sleep
  | GetSpectrum string
  | UpdateIntegrationTime int
  | StartProcess nat
  | LogWarning string
  | LogInfo string
  | QPut msg
  | JoinListener
  | JoinProcess nat
  | TerminateListener

text \<open>
  The state of \<open>run\<close> inside its loop. A fit process is named by the counter value \<open>i\<close>
  at which it was created. \<open>processes\<close> is the list of that name; \<open>alive\<close> is the set of
  fit processes for which \<open>is_alive()\<close> is true; \<open>disk\<close> holds the spectrum files
  written by \<open>get_spectrum\<close>.
\<close>

record run_state =
  seq_i :: nat
  spectro_integration_time :: int
  processes :: "nat list"
  alive :: "nat set"
  disk :: "string set"
  trace :: "event list"

record config =
  cfg_target_int :: int
  cfg_int_times :: "int list"
  cfg_fpath :: string

text \<open>
  One pass of \<open>while True\<close> sees: whether the control file exists, whether the operator
  interrupts during the pass, the maximum of the spectrum read, and the fit processes
  that have exited since the previous pass.
\<close>

record tick =
  control_on :: bool
  interrupt :: bool
  peak :: npfloat
  exited :: "nat set"

text \<open>Lines 234 to 251: prune the list, then start a process or log a warning.\<close>

definition dispatch :: "run_state \<Rightarrow> run_state" where
  "dispatch st =
     (let ps = filter (\<lambda>pr. pr \<in> alive st) (processes st) in
      if length ps < 3
      then st\<lparr>processes := ps @ [seq_i st],
              alive := insert (seq_i st) (alive st),
              trace := trace st @ [StartProcess (seq_i st)]\<rparr>
      else st\<lparr>processes := ps,
              trace := trace st
                @ [LogWarning ''Too many processes! Spectrum {i} not analysed'']\<rparr>)"

text \<open>
  Lines 212 to 253, the body of the \<open>try\<close> when no interrupt arrives. An exception of
  the exposure computation is not caught by \<open>except KeyboardInterrupt\<close>: it is returned
  with the state reached.
\<close>

definition cycle :: "config \<Rightarrow> npfloat \<Rightarrow> run_state \<Rightarrow> py_error option \<times> run_state" where
  "cycle cfg pk st =
     (let spec_fname = spec_fname_of (cfg_fpath cfg) (seq_i st);
          st1 = st\<lparr>disk := insert spec_fname (disk st),
                    trace := trace st @ [GetSpectrum spec_fname]\<rparr>
      in case update_exposure (cfg_target_int cfg) (cfg_int_times cfg)
                (spectro_integration_time st1) pk of
           Inl e \<Rightarrow> (Some e, st1)
         | Inr (v, changed) \<Rightarrow>
             (let st2 = (if changed
                         then st1\<lparr>spectro_integration_time := v,
                                  trace := trace st1 @ [UpdateIntegrationTime v]\<rparr>
                         else st1);
                  st3 = dispatch st2
              in (None, st3\<lparr>seq_i := seq_i st3 + 1\<rparr>)))"

text \<open>
  Lines 255 to 264: the handler of \<open>KeyboardInterrupt\<close> and the code after the loop.
  A joined process has exited.
\<close>

definition shutdown :: "run_state \<Rightarrow> run_state" where
  "shutdown st =
     st\<lparr>alive := alive st - set (processes st),
        trace := trace st @ [QPut Kill, LogInfo ''Program ended'', JoinListener]
                  @ map JoinProcess (processes st)\<rparr>"

text \<open>
  An exception that leaves \<open>run\<close> ends the interpreter. The exit handler of
  \<open>multiprocessing\<close> then terminates the daemonic children (the listener, line 193) and
  joins the others.
\<close>

definition interpreter_exit :: "run_state \<Rightarrow> run_state" where
  "interpreter_exit st =
     st\<lparr>alive := {},
        trace := trace st @ [TerminateListener]
                  @ map JoinProcess (filter (\<lambda>pr. pr \<in> alive st) (processes st))\<rparr>"

datatype outcome = Looping | Ended | Uncaught py_error

text \<open>
  Lines 203 to 264 over the passes given. \<open>time.sleep(1)\<close> of line 207 stands before
  the \<open>try\<close>: an interrupt during a pass without control file is not handled. In a
  pass with control file the interrupt arrives while \<open>get_spectrum\<close> waits for the
  spectrometer, inside the \<open>try\<close>. The loop does not end by itself: when the passes
  are used up it is still \<open>Looping\<close>.
\<close>

fun run_loop :: "config \<Rightarrow> tick list \<Rightarrow> run_state \<Rightarrow> outcome \<times> run_state" where
  "run_loop cfg [] st = (Looping, st)"
| "run_loop cfg (tk # tks) st =
     (let st0 = st\<lparr>alive := alive st - exited tk\<rparr> in
      if \<not> control_on tk then
        (let st1 = st0\<lparr>trace := trace st0 @ [Sleep]\<rparr> in
         if interrupt tk then (Uncaught KeyboardInterrupt, interpreter_exit st1)
         else run_loop cfg tks st1)
      else if interrupt tk then (Ended, shutdown st0)
      else (case cycle cfg (peak tk) st0 of
              (Some e, st1) \<Rightarrow> (Uncaught e, interpreter_exit st1)
            | (None, st1) \<Rightarrow> run_loop cfg tks st1))"

text \<open>Lines 143, 187 and 201: the state in which the loop is entered.\<close>

definition init_state :: "int \<Rightarrow> run_state" where
  "init_state t0 =
     \<lparr>seq_i = 0, spectro_integration_time = t0, processes = [], alive = {},
      disk = {}, trace = [LogInfo ''PiSpec ready!'']\<rparr>"

text \<open>
  The admission bound as a property of the state: every live fit process is in the list
  \<open>processes\<close>, and the list has at most three entries.
\<close>

definition cap_inv :: "run_state \<Rightarrow> bool" where
  "cap_inv st \<longleftrightarrow> alive st \<subseteq> set (processes st) \<and> length (processes st) \<le> 3"

section \<open>ResultLedger: \<open>listener\<close>, lines 52 to 75\<close>

definition nl :: string where
  "nl = [CHR 0x0A]"






text \<open>
  Lines 69 to 71. The text of a value inside an f-string is its \<open>str()\<close>; that
  function is the parameter \<open>fmt\<close>.
\<close>

definition row_msg :: "(pyval \<Rightarrow> string) \<Rightarrow> pyval \<Rightarrow> pyval list \<Rightarrow> string" where
  "row_msg fmt r0 rs = fold (\<lambda>r msg. msg @ '','' @ fmt r) rs (fmt r0)"








section \<open>A fit job: \<open>analyse_spec\<close>, lines 20 to 49\<close>

record spec_info =
  info_timestamp :: string
  info_lat :: real
  info_lon :: real
  info_alt :: real
  info_integration_time :: int

text \<open>Of the fit result the job reads the SO2 value, its error and \<open>np.max(fit.spec)\<close>.\<close>

record fit_result =
  SO2_fit_val :: real
  SO2_fit_err :: real
  fit_spec_max :: real

text \<open>
  The capabilities the job calls and that are not part of this repository: reading the
  spectrum file, the fit, the UTM projection, and opening the measurement file for
  writing. Each may raise.
\<close>

record job_env =
  read_spectrum :: "string \<Rightarrow> py_error + (real list \<times> real list \<times> spec_info)"
  fit_spectrum :: "real list \<times> real list \<Rightarrow> py_error + fit_result"
  from_latlon :: "real \<Rightarrow> real \<Rightarrow> py_error + (real \<times> real \<times> int \<times> string)"
  open_w :: "string \<Rightarrow> py_error option"

text \<open>What a job leaves behind: the exception it died of, the file it wrote, its puts.\<close>

record job_effects =
  job_raised :: "py_error option"
  meas_files :: "(string \<times> string) list"
  q_puts :: "msg list"

definition job_died :: "py_error \<Rightarrow> job_effects" where
  "job_died e = \<lparr>job_raised = Some e, meas_files = [], q_puts = []\<rparr>"

text \<open>\<open>os.path.split\<close> of \<open>posixpath\<close>.\<close>

definition path_split :: "string \<Rightarrow> string \<times> string" where
  "path_split pth =
     (let tail = rev (takeWhile (\<lambda>c. c \<noteq> CHR ''/'') (rev pth));
          head = take (length pth - length tail) pth
      in (if head \<noteq> [] \<and> head \<noteq> replicate (length head) (CHR ''/'')
          then rev (dropWhile (\<lambda>c. c = CHR ''/'') (rev head)) else head,
          tail))"

text \<open>\<open>str.replace(old, new)\<close>: every occurrence, left to right, without overlap.\<close>

function replace_from :: "string \<Rightarrow> string \<Rightarrow> string \<Rightarrow> string" where
  "replace_from old new [] = []"
| "replace_from old new (c # cs) =
     (if old \<noteq> [] \<and> take (length old) (c # cs) = old
      then new @ replace_from old new (drop (length old) (c # cs))
      else c # replace_from old new cs)"
  by pat_completeness auto
termination
  by (relation "measure (\<lambda>(old, new, txt). length txt)") auto

definition py_replace :: "string \<Rightarrow> string \<Rightarrow> string \<Rightarrow> string" where
  "py_replace old new txt =
     (if old = [] then new @ concat (map (\<lambda>c. c # new) txt)
      else replace_from old new txt)"

definition meas_fname_of :: "string \<Rightarrow> string" where
  "meas_fname_of spec_fname =
     (let (head, tail) = path_split spec_fname
      in head @ ''/meas/'' @ py_replace ''spectrum'' ''meas'' tail)"

definition colate :: "spec_info \<Rightarrow> real \<times> real \<times> int \<times> string \<Rightarrow> fit_result \<Rightarrow> pyval list" where
  "colate info utm_coords fit =
     (let conv = 2540000000000000 in
      [PyStr (info_timestamp info), PyFloat (info_lat info), PyFloat (info_lon info),
       PyFloat (info_alt info),
       PyFloat (fst utm_coords), PyFloat (fst (snd utm_coords)),
       PyInt (fst (snd (snd utm_coords))), PyStr (snd (snd (snd utm_coords))),
       PyFloat (SO2_fit_val fit), PyFloat (SO2_fit_err fit),
       PyFloat (SO2_fit_val fit / conv), PyFloat (SO2_fit_err fit / conv),
       PyInt (info_integration_time info), PyFloat (fit_spec_max fit)])"

definition analyse_spec :: "job_env \<Rightarrow> (pyval \<Rightarrow> string) \<Rightarrow> string \<Rightarrow> job_effects" where
  "analyse_spec env fmt spec_fname =
     (case read_spectrum env spec_fname of
        Inl e \<Rightarrow> job_died e
      | Inr (x, y, info) \<Rightarrow>
     (case fit_spectrum env (x, y) of
        Inl e \<Rightarrow> job_died e
      | Inr fit \<Rightarrow>
     (case from_latlon env (info_lat info) (info_lon info) of
        Inl e \<Rightarrow> job_died e
      | Inr utm_coords \<Rightarrow>
          (let res = colate info utm_coords fit;
               meas_fname = meas_fname_of spec_fname
           in case open_w env meas_fname of
                Some e \<Rightarrow> job_died e
              | None \<Rightarrow>
                  \<lparr>job_raised = None,
                   meas_files = [(meas_fname, concat (map (\<lambda>r. fmt r @ '','') res))],
                   q_puts = [Res res]\<rparr>))))"

text \<open>
  What arrives on the queue when the jobs for the given spectrum files run, in the order
  in which they complete.
\<close>

definition deliveries :: "job_env \<Rightarrow> (pyval \<Rightarrow> string) \<Rightarrow> string list \<Rightarrow> msg list" where
  "deliveries env fmt spec_fnames =
     concat (map (\<lambda>f. q_puts (analyse_spec env fmt f)) spec_fnames)"

text \<open>An environment in which the spectrum can be read and the fit raises.\<close>

definition env_fit_fails :: job_env where
  "env_fit_fails =
     \<lparr>read_spectrum = (\<lambda>f. Inr ([310, 320], [100, 200],
          \<lparr>info_timestamp = ''2020-01-01 00:00:00'', info_lat = 0, info_lon = 0,
           info_alt = 0, info_integration_time = 100\<rparr>)),
      fit_spectrum = (\<lambda>xy. Inl (FitError ''fit failed'')),
      from_latlon = (\<lambda>la lo. Inr (0, 0, 31, ''N'')),
      open_w = (\<lambda>f. None)\<rparr>"

section \<open>RemoteSyncClient: class \<open>PiSpec\<close> of \<open>ifit/pispec.py\<close>\<close>

text \<open>
  The command lines the client sends: \<open>Tail n path\<close> stands for \<open>tail -n n path\<close>,
  \<open>Ls pattern\<close> for \<open>ls pattern\<close>, \<open>Touch path\<close> and \<open>Rm path\<close> likewise.
\<close>

datatype command = Tail nat string | Ls string | Touch string | Rm string

text \<open>
  The transport is the SSH client, which is not part of this repository.
  \<open>run_command\<close> gives the lines of standard output, \<open>copy_remote_file\<close> the content
  of the remote file; either may raise instead.
\<close>

record transport =
  run_command :: "command \<Rightarrow> py_error + string list"
  copy_remote_file :: "string \<Rightarrow> py_error + string list"

datatype call = RunCommand command | CopyRemoteFile string string

text \<open>
  The client's side: the watched folder, the local files (a file is the list of its
  lines, each without its final newline and containing none), and the transport calls
  made so far.
\<close>

record client =
  folder :: string
  files :: "string \<rightharpoonup> string list"
  calls :: "call list"

text \<open>\<open>self.client.copy_remote_file(remote, local)\<close>.\<close>

definition do_copy :: "transport \<Rightarrow> string \<Rightarrow> string \<Rightarrow> client \<Rightarrow> (py_error + unit) \<times> client" where
  "do_copy tr remote local c =
     (let c1 = c\<lparr>calls := calls c @ [CopyRemoteFile remote local]\<rparr> in
      case copy_remote_file tr remote of
        Inl e \<Rightarrow> (Inl e, c1)
      | Inr content \<Rightarrow> (Inr (), c1\<lparr>files := (files c1)(local \<mapsto> content)\<rparr>))"

text \<open>\<open>self.client.run_command(cmd)\<close> with its \<open>stdout\<close> read.\<close>

definition do_run :: "transport \<Rightarrow> command \<Rightarrow> client \<Rightarrow> (py_error + string list) \<times> client" where
  "do_run tr cmd c = (run_command tr cmd, c\<lparr>calls := calls c @ [RunCommand cmd]\<rparr>)"

text \<open>
  \<open>str.strip()\<close>: leading and trailing whitespace removed. The whitespace characters
  are those of the ASCII range.
\<close>

definition is_space :: "char \<Rightarrow> bool" where
  "is_space ch \<longleftrightarrow>
     ch \<in> {CHR 0x09, CHR 0x0A, CHR 0x0B, CHR 0x0C, CHR 0x0D,
           CHR 0x1C, CHR 0x1D, CHR 0x1E, CHR 0x1F, CHR 0x20}"

definition strip :: "string \<Rightarrow> string" where
  "strip txt = rev (dropWhile is_space (rev (dropWhile is_space txt)))"

definition rem_so2 :: "client \<Rightarrow> string" where
  "rem_so2 c = ''/home/pi/drone/Results/'' @ folder c @ ''/so2_output.csv''"

definition loc_so2 :: "client \<Rightarrow> string" where
  "loc_so2 c = ''Results/'' @ folder c @ ''/so2_output.csv''"

text \<open>Lines 42 to 51.\<close>

definition copy_so2_data :: "transport \<Rightarrow> client \<Rightarrow> (py_error + unit) \<times> client" where
  "copy_so2_data tr c = do_copy tr (rem_so2 c) (loc_so2 c) c"

text \<open>
  Lines 68 to 73: the loop over the fetched lines. \<open>loc_lines\<close> is not extended while
  the loop runs. The pair is \<open>updated_flag\<close> and the lines of the local file.
\<close>

fun write_unseen :: "string list \<Rightarrow> string list \<Rightarrow> bool \<times> string list \<Rightarrow> bool \<times> string list" where
  "write_unseen loc_lines [] acc = acc"
| "write_unseen loc_lines (line # rem_lines) (updated_flag, w) =
     (if line \<notin> set loc_lines
      then write_unseen loc_lines rem_lines (True, w @ [line])
      else write_unseen loc_lines rem_lines (updated_flag, w))"

text \<open>Lines 53 to 75. Only the missing local file is caught.\<close>

definition sync_so2_data :: "transport \<Rightarrow> nat \<Rightarrow> client \<Rightarrow> (py_error + bool) \<times> client" where
  "sync_so2_data tr buffer_len c =
     (case files c (loc_so2 c) of
        None \<Rightarrow>
          (case copy_so2_data tr c of
             (Inl e, c1) \<Rightarrow> (Inl e, c1)
           | (Inr _, c1) \<Rightarrow> (Inr True, c1))
      | Some raw \<Rightarrow>
          (let loc_lines = map strip raw in
           case do_run tr (Tail buffer_len (rem_so2 c)) c of
             (Inl e, c1) \<Rightarrow> (Inl e, c1)
           | (Inr out, c1) \<Rightarrow>
               (let rem_lines = map strip out;
                    (updated_flag, w) = write_unseen loc_lines rem_lines (False, raw)
                in (Inr updated_flag, c1\<lparr>files := (files c1)(loc_so2 c \<mapsto> w)\<rparr>))))"


text \<open>
  Lines 84 to 93, and 116 to 125: the names listed remotely that are not in the local
  folder. A name is in \<open>os.listdir(loc_folder)\<close> exactly when the folder holds a file
  of that name.
\<close>

definition files_to_sync_of :: "client \<Rightarrow> string \<Rightarrow> string list \<Rightarrow> string list" where
  "files_to_sync_of c loc_folder out =
     (let rem_files = map (\<lambda>f. snd (path_split f)) out
      in filter (\<lambda>f. files c (loc_folder @ ''/'' @ f) = None) rem_files)"













text \<open>
  A working link to a unit whose result ledger holds the lines \<open>remote\<close>: \<open>tail -n n\<close>
  prints the last \<open>n\<close> of them and a copy delivers them all. Other commands print
  nothing.
\<close>

definition ledger_link :: "string list \<Rightarrow> transport" where
  "ledger_link remote =
     \<lparr>run_command = (\<lambda>cmd. case cmd of
                               Tail n pth \<Rightarrow> Inr (drop (length remote - n) remote)
                             | _ \<Rightarrow> Inr []),
      copy_remote_file = (\<lambda>pth. Inr remote)\<rparr>"


section \<open>MonitorLoop: the log view of \<open>DroneSpecUI.py\<close>\<close>

text \<open>\<open>str.split('\n')\<close>: one piece more than there are newlines.\<close>

fun split_nl :: "string \<Rightarrow> string list" where
  "split_nl [] = [[]]"
| "split_nl (ch # rest) =
     (if ch = CHR 0x0A then [] # split_nl rest
      else (case split_nl rest of
              [] \<Rightarrow> [[ch]]
            | piece # pieces \<Rightarrow> (ch # piece) # pieces))"

text \<open>
  The log widget is a \<open>QPlainTextEdit\<close> of the Qt library; its state is its plain text.
  \<open>appendPlainText\<close> adds a paragraph at the end: into an empty document the text goes
  as it is, otherwise after a paragraph break.
\<close>

definition appendPlainText :: "string \<Rightarrow> string \<Rightarrow> string" where
  "appendPlainText line doc = (if doc = [] then line else doc @ nl @ line)"

text \<open>\<open>MainWindow.update_log\<close>, lines 302 to 306.\<close>

definition update_log :: "string \<Rightarrow> string list \<Rightarrow> string" where
  "update_log doc log_text =
     (let text = split_nl doc
      in fold (\<lambda>line d. appendPlainText (strip line) d) (drop (length text) log_text) doc)"

text \<open>\<open>readlines()\<close> of a file: every line with its newline.\<close>

definition readlines :: "string list \<Rightarrow> string list" where
  "readlines file_lines = map (\<lambda>l. l @ nl) file_lines"

text \<open>
  \<open>SyncWorker._run\<close>, lines 420 to 424, over successive cycles: each cycle pulls the
  log, reads its lines and emits them to \<open>update_log\<close>. The argument lists the content
  of the pulled log file, cycle by cycle.
\<close>

fun log_cycles :: "string list list \<Rightarrow> string \<Rightarrow> string" where
  "log_cycles [] doc = doc"
| "log_cycles (file_lines # later) doc =
     log_cycles later (update_log doc (readlines file_lines))"

section \<open>Properties of the exposure controller\<close>

lemma diff_of_Fin:
  "diff_of int_times (Fin s) = map (\<lambda>t. Fin \<bar>of_int t - s\<bar>) int_times"
  by (simp add: diff_of_def)












lemma py_min_all_PInf: "py_min PInf (map (\<lambda>_. PInf) xs) = PInf"
  by (induction xs) simp_all

lemma int_time_of_zero_peak:
  "0 < target_int \<Longrightarrow> 0 < integration_time \<Longrightarrow>
   int_time_of target_int integration_time (Fin 0) = PInf"
  by (simp add: int_time_of_def scale_of_def)

lemma new_int_time_zero_peak:
  assumes "0 < target_int" and "0 < integration_time"
  shows "new_int_time target_int (t # ts) integration_time (Fin 0) = Inr t"
  by (simp add: new_int_time_def int_time_of_zero_peak [OF assms] diff_of_def
      py_min_all_PInf)

text \<open>
  C10, as the code has it. There is no guard for a zero peak: with a positive target
  and a positive integration time the division by the zero peak is carried out and
  gives plus infinity, the scaled integration time is infinite, every ladder distance
  is infinite, nothing is raised, and the first value of the ladder is chosen.
\<close>

theorem C10_zero_peak_unguarded:
  "0 < target_int \<Longrightarrow> 0 < integration_time \<Longrightarrow>
     scale_of target_int (Fin 0) = PInf
   \<and> int_time_of target_int integration_time (Fin 0) = PInf
   \<and> new_int_time target_int (t # ts) integration_time (Fin 0) = Inr t
   \<and> update_exposure target_int (t # ts) integration_time (Fin 0)
       = Inr (t, t \<noteq> integration_time)"
  by (simp add: update_exposure_def new_int_time_zero_peak int_time_of_zero_peak)
     (simp add: scale_of_def)

theorem C10_zero_peak_unguarded_witness:
  "(0::int) < 50000 \<and> (0::int) < 100
   \<and> scale_of 50000 (Fin 0) = PInf
   \<and> update_exposure 50000 [50, 60, 70] 100 (Fin 0) = Inr (50, True)"
  using C10_zero_peak_unguarded [of 50000 100 50 "[60, 70]"]
  by simp

text \<open>
  The claim C10 as stated fails: at a zero peak the scale is the result of a division by
  zero, and that result reaches the update, which moves the integration time from 100
  to 50.
\<close>

theorem C10_counterexample:
  "scale_of 50000 (Fin 0) = PInf
   \<and> int_time_of 50000 100 (Fin 0) = PInf
   \<and> diff_of [50, 60, 70] (int_time_of 50000 100 (Fin 0)) = [PInf, PInf, PInf]
   \<and> update_exposure 50000 [50, 60, 70] 100 (Fin 0) = Inr (50, True)"
  by (simp add: scale_of_def int_time_of_def diff_of_def update_exposure_def new_int_time_def)

section \<open>Properties of the dispatcher and of the acquisition loop\<close>

text \<open>
  \<open>((a) ** 2) ** 0.5\<close> is the absolute value, on the special values too; this equation
  lets the exposure computation be evaluated.
\<close>

lemma diff_of_code [code]:
  "diff_of int_times int_time =
     map (\<lambda>t. (case np_sub (Fin (of_int t)) int_time of
                  Fin a \<Rightarrow> Fin \<bar>a\<bar> | PInf \<Rightarrow> PInf | NInf \<Rightarrow> PInf | NaN \<Rightarrow> NaN))
       int_times"
  by (auto simp: diff_of_def split: npfloat.splits)

declare digits.simps [simp del]

lemma cap_inv_card: "cap_inv st \<Longrightarrow> card (alive st) \<le> 3"
proof -
  assume a: "cap_inv st"
  then have "card (alive st) \<le> card (set (processes st))"
    by (simp add: cap_inv_def card_mono)
  also have "\<dots> \<le> length (processes st)"
    by (rule card_length)
  finally show ?thesis using a by (simp add: cap_inv_def)
qed

lemma length_filter_le3: "length xs \<le> 3 \<Longrightarrow> length (filter P xs) \<le> 3"
  by (rule order_trans [OF length_filter_le])

lemma dispatch_cap_inv: "cap_inv st \<Longrightarrow> cap_inv (dispatch st)"
  by (auto simp: cap_inv_def dispatch_def Let_def length_filter_le3)

lemma dispatch_start:
  "length (filter (\<lambda>pr. pr \<in> alive st) (processes st)) < 3 \<Longrightarrow>
   alive (dispatch st) = insert (seq_i st) (alive st)
   \<and> trace (dispatch st) = trace st @ [StartProcess (seq_i st)]
   \<and> disk (dispatch st) = disk st"
  by (simp add: dispatch_def Let_def)

lemma dispatch_skip:
  "\<not> length (filter (\<lambda>pr. pr \<in> alive st) (processes st)) < 3 \<Longrightarrow>
   alive (dispatch st) = alive st
   \<and> trace (dispatch st)
       = trace st @ [LogWarning ''Too many processes! Spectrum {i} not analysed'']
   \<and> disk (dispatch st) = disk st"
  by (simp add: dispatch_def Let_def)

lemma cap_inv_cong:
  "alive st' = alive st \<Longrightarrow> processes st' = processes st \<Longrightarrow> cap_inv st \<Longrightarrow> cap_inv st'"
  by (simp add: cap_inv_def)

lemma cycle_cap_inv:
  assumes a: "cap_inv st"
  shows "cap_inv (snd (cycle cfg pk st))"
proof -
  define st1 where "st1 = st\<lparr>disk := insert (spec_fname_of (cfg_fpath cfg) (seq_i st)) (disk st),
      trace := trace st @ [GetSpectrum (spec_fname_of (cfg_fpath cfg) (seq_i st))]\<rparr>"
  have i1: "cap_inv st1"
    by (rule cap_inv_cong [OF _ _ a]) (simp_all add: st1_def)
  show ?thesis
  proof (cases "update_exposure (cfg_target_int cfg) (cfg_int_times cfg)
                (spectro_integration_time st) pk")
    case (Inl e)
    then have "cycle cfg pk st = (Some e, st1)"
      by (simp add: cycle_def Let_def st1_def)
    then show ?thesis
      using i1 by simp
  next
    case (Inr r)
    obtain v changed where r: "r = (v, changed)" by (cases r)
    define st2 where "st2 = (if changed
                         then st1\<lparr>spectro_integration_time := v,
                                  trace := trace st1 @ [UpdateIntegrationTime v]\<rparr>
                         else st1)"
    have i2: "cap_inv st2"
      by (rule cap_inv_cong [OF _ _ i1]) (simp_all add: st2_def)
    have i3: "cap_inv (dispatch st2)"
      by (rule dispatch_cap_inv [OF i2])
    have i4: "cap_inv ((dispatch st2)\<lparr>seq_i := seq_i (dispatch st2) + 1\<rparr>)"
      by (rule cap_inv_cong [OF _ _ i3]) simp_all
    have "cycle cfg pk st = (None, (dispatch st2)\<lparr>seq_i := seq_i (dispatch st2) + 1\<rparr>)"
      using Inr r by (simp add: cycle_def Let_def st1_def st2_def)
    then show ?thesis
      using i4 by simp
  qed
qed

lemma run_loop_cap_inv:
  "cap_inv st \<Longrightarrow> cap_inv (snd (run_loop cfg tks st))"
proof (induction tks arbitrary: st)
  case Nil
  then show ?case by simp
next
  case (Cons tk tks)
  define st0 where "st0 = st\<lparr>alive := alive st - exited tk\<rparr>"
  have i0: "cap_inv st0"
    using Cons.prems by (auto simp: cap_inv_def st0_def)
  show ?case
  proof (cases "control_on tk")
    case False
    have i1: "cap_inv (st0\<lparr>trace := trace st0 @ [Sleep]\<rparr>)"
      using i0 by (simp add: cap_inv_def)
    show ?thesis
    proof (cases "interrupt tk")
      case True
      with False i0 show ?thesis
        by (simp add: st0_def [symmetric] Let_def interpreter_exit_def cap_inv_def)
    next
      case f: False
      with False Cons.IH [OF i1] show ?thesis
        by (simp add: st0_def [symmetric] Let_def)
    qed
  next
    case True
    show ?thesis
    proof (cases "interrupt tk")
      case t: True
      with True i0 show ?thesis
        by (auto simp add: st0_def [symmetric] Let_def shutdown_def cap_inv_def)
    next
      case False
      obtain r st1 where c: "cycle cfg (peak tk) st0 = (r, st1)"
        by (cases "cycle cfg (peak tk) st0")
      from cycle_cap_inv [OF i0, of cfg "peak tk"] c have i1: "cap_inv st1"
        by simp
      show ?thesis
      proof (cases r)
        case None
        with True False c Cons.IH [OF i1] show ?thesis
          by (simp add: st0_def [symmetric] Let_def)
      next
        case (Some e)
        with True False c i1 show ?thesis
          by (simp add: st0_def [symmetric] Let_def interpreter_exit_def cap_inv_def)
      qed
    qed
  qed
qed

lemma init_cap_inv: "cap_inv (init_state t0)"
  by (simp add: cap_inv_def init_state_def)


lemma cycle_effects:
  assumes c: "cycle cfg pk st = (None, st')"
  shows "spec_fname_of (cfg_fpath cfg) (seq_i st) \<in> disk st'
     \<and> seq_i st' = seq_i st + 1
     \<and> (if length (filter (\<lambda>pr. pr \<in> alive st) (processes st)) < 3
        then alive st' = insert (seq_i st) (alive st)
           \<and> last (trace st') = StartProcess (seq_i st)
        else alive st' = alive st
           \<and> last (trace st') = LogWarning ''Too many processes! Spectrum {i} not analysed''
           \<and> (\<forall>n. StartProcess n \<in> set (trace st') \<longrightarrow> StartProcess n \<in> set (trace st)))"
proof (cases "update_exposure (cfg_target_int cfg) (cfg_int_times cfg)
                (spectro_integration_time st) pk")
  case (Inl e)
  with c show ?thesis
    by (simp add: cycle_def Let_def)
next
  case (Inr r)
  obtain v changed where r: "r = (v, changed)" by (cases r)
  define st1 where "st1 = st\<lparr>disk := insert (spec_fname_of (cfg_fpath cfg) (seq_i st)) (disk st),
      trace := trace st @ [GetSpectrum (spec_fname_of (cfg_fpath cfg) (seq_i st))]\<rparr>"
  define st2 where "st2 = (if changed
                         then st1\<lparr>spectro_integration_time := v,
                                  trace := trace st1 @ [UpdateIntegrationTime v]\<rparr>
                         else st1)"
  have "cycle cfg pk st = (None, (dispatch st2)\<lparr>seq_i := seq_i (dispatch st2) + 1\<rparr>)"
    using Inr r by (simp add: cycle_def Let_def st1_def st2_def)
  with c have st': "st' = (dispatch st2)\<lparr>seq_i := seq_i (dispatch st2) + 1\<rparr>"
    by simp
  have same: "alive st2 = alive st" "processes st2 = processes st" "seq_i st2 = seq_i st"
    "disk st2 = insert (spec_fname_of (cfg_fpath cfg) (seq_i st)) (disk st)"
    by (simp_all add: st2_def st1_def)
  have tr: "\<forall>n. StartProcess n \<in> set (trace st2) \<longrightarrow> StartProcess n \<in> set (trace st)"
    by (auto simp: st2_def st1_def)
  have sq: "seq_i (dispatch st2) = seq_i st"
    by (simp add: dispatch_def Let_def same)
  show ?thesis
  proof (cases "length (filter (\<lambda>pr. pr \<in> alive st) (processes st)) < 3")
    case True
    then have "length (filter (\<lambda>pr. pr \<in> alive st2) (processes st2)) < 3"
      by (simp add: same)
    from dispatch_start [OF this] True show ?thesis
      by (simp add: st' same sq)
  next
    case False
    then have "\<not> length (filter (\<lambda>pr. pr \<in> alive st2) (processes st2)) < 3"
      by (simp add: same)
    from dispatch_skip [OF this] False tr show ?thesis
      by (simp add: st' same sq)
  qed
qed

text \<open>
  C4. A cycle that starts from a state within the bound (live processes all listed, at
  most three listed) ends within the bound, so at most three fit processes are alive.
  The list is pruned first; with fewer than three left a process for the spectrum is
  started; otherwise none is started, the warning is logged, and the spectrum file
  written at the start of the cycle is on disk. Every state the loop reaches from its
  initial state is within the bound.
\<close>

theorem C4_at_most_three_in_flight:
  "(cap_inv st \<and> cycle cfg pk st = (None, st') \<longrightarrow>
       cap_inv st' \<and> card (alive st') \<le> 3
     \<and> spec_fname_of (cfg_fpath cfg) (seq_i st) \<in> disk st'
     \<and> (if length (filter (\<lambda>pr. pr \<in> alive st) (processes st)) < 3
        then alive st' = insert (seq_i st) (alive st)
           \<and> last (trace st') = StartProcess (seq_i st)
        else alive st' = alive st
           \<and> last (trace st') = LogWarning ''Too many processes! Spectrum {i} not analysed''
           \<and> (\<forall>n. StartProcess n \<in> set (trace st') \<longrightarrow> StartProcess n \<in> set (trace st))))
   \<and> cap_inv (snd (run_loop cfg tks (init_state t0)))
   \<and> card (alive (snd (run_loop cfg tks (init_state t0)))) \<le> 3"
proof -
  have step: "cap_inv st' \<and> card (alive st') \<le> 3
     \<and> spec_fname_of (cfg_fpath cfg) (seq_i st) \<in> disk st'
     \<and> (if length (filter (\<lambda>pr. pr \<in> alive st) (processes st)) < 3
        then alive st' = insert (seq_i st) (alive st)
           \<and> last (trace st') = StartProcess (seq_i st)
        else alive st' = alive st
           \<and> last (trace st') = LogWarning ''Too many processes! Spectrum {i} not analysed''
           \<and> (\<forall>n. StartProcess n \<in> set (trace st') \<longrightarrow> StartProcess n \<in> set (trace st)))"
    if a: "cap_inv st \<and> cycle cfg pk st = (None, st')"
  proof -
    from cycle_cap_inv [of st cfg pk] a have i: "cap_inv st'" by simp
    from i cap_inv_card [OF i] cycle_effects [of cfg pk st st'] a
    show ?thesis by simp
  qed
  have i: "cap_inv (snd (run_loop cfg tks (init_state t0)))"
    by (rule run_loop_cap_inv [OF init_cap_inv])
  have c: "card (alive (snd (run_loop cfg tks (init_state t0)))) \<le> 3"
    by (rule cap_inv_card [OF i])
  from step i c show ?thesis by blast
qed

theorem C4_at_most_three_in_flight_witness:
  "cap_inv \<lparr>seq_i = 5, spectro_integration_time = 100, processes = [2, 3, 4],
            alive = {2, 3, 4}, disk = {}, trace = []\<rparr>
   \<and> cycle \<lparr>cfg_target_int = 50000, cfg_int_times = [110, 120, 130],
             cfg_fpath = ''Results/x''\<rparr> (Fin 40000)
        \<lparr>seq_i = 5, spectro_integration_time = 100, processes = [2, 3, 4],
         alive = {2, 3, 4}, disk = {}, trace = []\<rparr>
      = (None,
         \<lparr>seq_i = 6, spectro_integration_time = 120, processes = [2, 3, 4],
          alive = {2, 3, 4}, disk = {spec_fname_of ''Results/x'' 5},
          trace = [GetSpectrum (spec_fname_of ''Results/x'' 5), UpdateIntegrationTime 120,
                   LogWarning ''Too many processes! Spectrum {i} not analysed'']\<rparr>)
   \<and> card {2, 3, 4 :: nat} \<le> 3"
proof -
  have h: "cap_inv \<lparr>seq_i = 5, spectro_integration_time = 100, processes = [2, 3, 4],
            alive = {2, 3, 4}, disk = {}, trace = []\<rparr>
   \<and> cycle \<lparr>cfg_target_int = 50000, cfg_int_times = [110, 120, 130],
             cfg_fpath = ''Results/x''\<rparr> (Fin 40000)
        \<lparr>seq_i = 5, spectro_integration_time = 100, processes = [2, 3, 4],
         alive = {2, 3, 4}, disk = {}, trace = []\<rparr>
      = (None,
         \<lparr>seq_i = 6, spectro_integration_time = 120, processes = [2, 3, 4],
          alive = {2, 3, 4}, disk = {spec_fname_of ''Results/x'' 5},
          trace = [GetSpectrum (spec_fname_of ''Results/x'' 5), UpdateIntegrationTime 120,
                   LogWarning ''Too many processes! Spectrum {i} not analysed'']\<rparr>)"
    by (simp add: cap_inv_def cycle_def update_exposure_def new_int_time_def
        int_time_of_def scale_of_def diff_of_Fin dispatch_def Let_def)
  from C4_at_most_three_in_flight [where st = "\<lparr>seq_i = 5, spectro_integration_time = 100,
      processes = [2, 3, 4], alive = {2, 3, 4}, disk = {}, trace = []\<rparr>"
      and cfg = "\<lparr>cfg_target_int = 50000, cfg_int_times = [110, 120, 130],
             cfg_fpath = ''Results/x''\<rparr>" and pk = "Fin 40000"
      and st' = "\<lparr>seq_i = 6, spectro_integration_time = 120, processes = [2, 3, 4],
          alive = {2, 3, 4}, disk = {spec_fname_of ''Results/x'' 5},
          trace = [GetSpectrum (spec_fname_of ''Results/x'' 5), UpdateIntegrationTime 120,
                   LogWarning ''Too many processes! Spectrum {i} not analysed'']\<rparr>"] h
  show ?thesis by simp
qed

lemma run_loop_interrupt_active:
  "control_on tk \<Longrightarrow> interrupt tk \<Longrightarrow>
   run_loop cfg (tk # tks) st = (Ended, shutdown (st\<lparr>alive := alive st - exited tk\<rparr>))"
  by (simp add: Let_def)

lemma run_loop_interrupt_inactive:
  "\<not> control_on tk \<Longrightarrow> interrupt tk \<Longrightarrow>
   run_loop cfg (tk # tks) st
     = (Uncaught KeyboardInterrupt,
        interpreter_exit (st\<lparr>alive := alive st - exited tk, trace := trace st @ [Sleep]\<rparr>))"
  by (simp add: Let_def)

text \<open>
  C9, evaluated where it fails. One cycle runs with the control file present and starts
  fit process 0; the control file is then removed and the operator interrupts during
  the polling sleep. The interrupt is raised outside the \<open>try\<close>: the loop ends with an
  uncaught \<open>KeyboardInterrupt\<close>, nothing is put on the queue, \<open>run\<close> joins nothing, and
  the exiting interpreter terminates the listener.
\<close>

theorem C9_interrupt_while_polling:
  "run_loop \<lparr>cfg_target_int = 50000, cfg_int_times = [110, 120, 130],
             cfg_fpath = ''Results/x''\<rparr>
     [\<lparr>control_on = True, interrupt = False, peak = Fin 40000, exited = {}\<rparr>,
      \<lparr>control_on = False, interrupt = True, peak = Fin 40000, exited = {}\<rparr>]
     (init_state 100)
   = (Uncaught KeyboardInterrupt,
      \<lparr>seq_i = 1, spectro_integration_time = 120, processes = [0], alive = {},
       disk = {spec_fname_of ''Results/x'' 0},
       trace = [LogInfo ''PiSpec ready!'', GetSpectrum (spec_fname_of ''Results/x'' 0),
                UpdateIntegrationTime 120, StartProcess 0, Sleep, TerminateListener,
                JoinProcess 0]\<rparr>)"
  by (simp add: init_state_def cycle_def update_exposure_def new_int_time_def
      int_time_of_def scale_of_def diff_of_Fin dispatch_def interpreter_exit_def Let_def)

text \<open>
  The same interrupt one cycle earlier, while the control file is present, is handled:
  the sentinel is put on the queue, then the listener and the fit process are joined.
\<close>

lemma interrupt_while_active:
  "run_loop \<lparr>cfg_target_int = 50000, cfg_int_times = [110, 120, 130],
             cfg_fpath = ''Results/x''\<rparr>
     [\<lparr>control_on = True, interrupt = False, peak = Fin 40000, exited = {}\<rparr>,
      \<lparr>control_on = True, interrupt = True, peak = Fin 40000, exited = {}\<rparr>]
     (init_state 100)
   = (Ended,
      \<lparr>seq_i = 1, spectro_integration_time = 120, processes = [0], alive = {},
       disk = {spec_fname_of ''Results/x'' 0},
       trace = [LogInfo ''PiSpec ready!'', GetSpectrum (spec_fname_of ''Results/x'' 0),
                UpdateIntegrationTime 120, StartProcess 0, QPut Kill,
                LogInfo ''Program ended'', JoinListener, JoinProcess 0]\<rparr>)"
  by (simp add: init_state_def cycle_def update_exposure_def new_int_time_def
      int_time_of_def scale_of_def diff_of_Fin dispatch_def shutdown_def Let_def)

section \<open>Properties of the listener\<close>

lemma fold_append_fields:
  "fold (\<lambda>r msg. msg @ CHR '','' # fmt r) rs acc
     = acc @ concat (map (\<lambda>r. CHR '','' # fmt r) rs)"
  by (induction rs arbitrary: acc) simp_all

lemma row_msg_joined:
  "row_msg fmt r0 rs = fmt r0 @ concat (map (\<lambda>r. '','' @ fmt r) rs)"
  by (simp add: row_msg_def fold_append_fields)











section \<open>Properties of a fit job\<close>

lemma analyse_spec_cases:
  "(\<exists>e. analyse_spec env fmt f = job_died e)
   \<or> (\<exists>res mf. length res = 14
         \<and> analyse_spec env fmt f = \<lparr>job_raised = None, meas_files = [mf], q_puts = [Res res]\<rparr>)"
  by (auto simp: analyse_spec_def colate_def Let_def split: sum.splits option.splits prod.splits)

lemma analyse_spec_fit_failure:
  "read_spectrum env f = Inr (x, y, info) \<Longrightarrow> fit_spectrum env (x, y) = Inl e \<Longrightarrow>
   analyse_spec env fmt f = job_died e"
  by (simp add: analyse_spec_def)

lemma analyse_spec_projection_failure:
  "read_spectrum env f = Inr (x, y, info) \<Longrightarrow> fit_spectrum env (x, y) = Inr fit \<Longrightarrow>
   from_latlon env (info_lat info) (info_lon info) = Inl e \<Longrightarrow>
   analyse_spec env fmt f = job_died e"
  by (simp add: analyse_spec_def)

text \<open>
  C6, as the code has it. A job whose fit or whose projection raises dies of that
  exception in its own process: it writes no measurement file and puts nothing on the
  queue, and the records of the other jobs arrive as they would without it. A job that
  does not raise puts exactly one record of fourteen entries. So a job delivers at most
  one outcome, and a failed job none: there is no failure outcome on the channel.
\<close>

theorem C6_failed_job_delivers_nothing:
  "(read_spectrum env f = Inr (x, y, info) \<and>
      (fit_spectrum env (x, y) = Inl e
       \<or> (\<exists>fit. fit_spectrum env (x, y) = Inr fit
              \<and> from_latlon env (info_lat info) (info_lon info) = Inl e)) \<longrightarrow>
      analyse_spec env fmt f = \<lparr>job_raised = Some e, meas_files = [], q_puts = []\<rparr>
    \<and> deliveries env fmt (fs1 @ f # fs2) = deliveries env fmt fs1 @ deliveries env fmt fs2)
   \<and> (job_raised (analyse_spec env fmt f) = None \<longrightarrow>
        (\<exists>res. length res = 14 \<and> q_puts (analyse_spec env fmt f) = [Res res]))
   \<and> (job_raised (analyse_spec env fmt f) \<noteq> None \<longrightarrow>
        q_puts (analyse_spec env fmt f) = [] \<and> meas_files (analyse_spec env fmt f) = [])
   \<and> length (q_puts (analyse_spec env fmt f)) \<le> 1"
proof -
  have fail: "analyse_spec env fmt f = \<lparr>job_raised = Some e, meas_files = [], q_puts = []\<rparr>
    \<and> deliveries env fmt (fs1 @ f # fs2) = deliveries env fmt fs1 @ deliveries env fmt fs2"
    if a: "read_spectrum env f = Inr (x, y, info) \<and>
      (fit_spectrum env (x, y) = Inl e
       \<or> (\<exists>fit. fit_spectrum env (x, y) = Inr fit
              \<and> from_latlon env (info_lat info) (info_lon info) = Inl e))"
  proof -
    from a have d: "analyse_spec env fmt f = job_died e"
      using analyse_spec_fit_failure analyse_spec_projection_failure by blast
    then show ?thesis
      by (simp add: deliveries_def job_died_def)
  qed
  from analyse_spec_cases [of env fmt f]
  have rest: "(job_raised (analyse_spec env fmt f) = None \<longrightarrow>
        (\<exists>res. length res = 14 \<and> q_puts (analyse_spec env fmt f) = [Res res]))
   \<and> (job_raised (analyse_spec env fmt f) \<noteq> None \<longrightarrow>
        q_puts (analyse_spec env fmt f) = [] \<and> meas_files (analyse_spec env fmt f) = [])
   \<and> length (q_puts (analyse_spec env fmt f)) \<le> 1"
    by (auto simp: job_died_def)
  from fail rest show ?thesis by blast
qed

theorem C6_failed_job_delivers_nothing_witness:
  "read_spectrum env_fit_fails ''Results/x/spectrum_00001.txt''
     = Inr ([310, 320], [100, 200],
          \<lparr>info_timestamp = ''2020-01-01 00:00:00'', info_lat = 0, info_lon = 0,
           info_alt = 0, info_integration_time = 100\<rparr>)
   \<and> fit_spectrum env_fit_fails ([310, 320], [100, 200]) = Inl (FitError ''fit failed'')
   \<and> analyse_spec env_fit_fails (\<lambda>v. []) ''Results/x/spectrum_00001.txt''
       = \<lparr>job_raised = Some (FitError ''fit failed''), meas_files = [], q_puts = []\<rparr>"
  using C6_failed_job_delivers_nothing [where env = env_fit_fails
      and f = "''Results/x/spectrum_00001.txt''"
      and x = "[310, 320]" and y = "[100, 200]"
      and info = "\<lparr>info_timestamp = ''2020-01-01 00:00:00'', info_lat = 0, info_lon = 0,
           info_alt = 0, info_integration_time = 100\<rparr>"
      and e = "FitError ''fit failed''" and fmt = "\<lambda>v. []"]
  by (simp add: env_fit_fails_def)

text \<open>
  The claim C6 as stated fails: a job whose fit raises puts nothing on the queue, neither
  a record nor a failure outcome.
\<close>

theorem C6_counterexample:
  "job_raised (analyse_spec env_fit_fails (\<lambda>v. []) ''Results/x/spectrum_00000.txt'')
     = Some (FitError ''fit failed'')
   \<and> q_puts (analyse_spec env_fit_fails (\<lambda>v. []) ''Results/x/spectrum_00000.txt'') = []
   \<and> deliveries env_fit_fails (\<lambda>v. []) [''Results/x/spectrum_00000.txt''] = []"
  by (simp add: analyse_spec_def job_died_def env_fit_fails_def deliveries_def)

section \<open>Properties of the ledger sync\<close>

lemma write_unseen_filter:
  "write_unseen loc_lines rem_lines (flag, w)
     = (flag \<or> filter (\<lambda>l. l \<notin> set loc_lines) rem_lines \<noteq> [],
        w @ filter (\<lambda>l. l \<notin> set loc_lines) rem_lines)"
  by (induction rem_lines arbitrary: flag w) simp_all

lemma dropWhile_last:
  "dropWhile P xs \<noteq> [] \<Longrightarrow> last (dropWhile P xs) = last xs"
  by (induction xs) (auto split: if_splits)

lemma strip_ends:
  "strip txt = [] \<or> (\<not> is_space (hd (strip txt)) \<and> \<not> is_space (last (strip txt)))"
proof (cases "strip txt = []")
  case True
  then show ?thesis by simp
next
  case False
  define u where "u = dropWhile is_space txt"
  define v where "v = dropWhile is_space (rev u)"
  have s: "strip txt = rev v"
    by (simp add: strip_def u_def v_def)
  with False have v: "v \<noteq> []" by simp
  then have ru: "rev u \<noteq> []" by (auto simp: v_def)
  then have u: "u \<noteq> []" by simp
  have hv: "\<not> is_space (hd v)"
    using v unfolding v_def by (rule hd_dropWhile)
  have hu: "\<not> is_space (hd u)"
    using u unfolding u_def by (rule hd_dropWhile)
  have "last v = last (rev u)"
    using v unfolding v_def by (rule dropWhile_last)
  also have "\<dots> = hd u"
    using u by (simp add: last_rev)
  finally have lv: "\<not> is_space (last v)"
    using hu by simp
  from v hv lv show ?thesis
    by (simp add: s hd_rev last_rev)
qed

lemma strip_idem: "strip (strip txt) = strip txt"
proof -
  define t where "t = strip txt"
  from strip_ends [of "txt"] have e: "t = [] \<or> (\<not> is_space (hd t) \<and> \<not> is_space (last t))"
    by (simp add: t_def)
  have "strip t = t"
  proof (cases "t = []")
    case True
    then show ?thesis by (simp add: strip_def)
  next
    case False
    with e have h: "\<not> is_space (hd t)" and l: "\<not> is_space (last t)" by simp_all
    from False h have a: "dropWhile is_space t = t"
      by (cases t) simp_all
    from False l have b: "dropWhile is_space (rev t) = rev t"
      by (cases "rev t") (simp_all add: last_rev [symmetric] hd_rev)
    show ?thesis
      by (simp add: strip_def a b)
  qed
  then show ?thesis by (simp add: t_def)
qed

lemma map_strip_idem: "map strip (map strip xs) = map strip xs"
  by (simp add: strip_idem)


lemma loc_so2_cong [simp]:
  "loc_so2 (c\<lparr>calls := cs\<rparr>) = loc_so2 c" "loc_so2 (c\<lparr>files := fs\<rparr>) = loc_so2 c"
  "rem_so2 (c\<lparr>calls := cs\<rparr>) = rem_so2 c" "rem_so2 (c\<lparr>files := fs\<rparr>) = rem_so2 c"
  by (simp_all add: loc_so2_def rem_so2_def)

lemma sync_bootstrap:
  assumes "files c (loc_so2 c) = None" and "copy_remote_file tr (rem_so2 c) = Inr content"
  shows "sync_so2_data tr n c
           = (Inr True, c\<lparr>calls := calls c @ [CopyRemoteFile (rem_so2 c) (loc_so2 c)],
                           files := (files c)(loc_so2 c \<mapsto> content)\<rparr>)"
  using assms by (simp add: sync_so2_data_def copy_so2_data_def do_copy_def Let_def)

lemma sync_incremental:
  assumes "files c (loc_so2 c) = Some raw"
    and "run_command tr (Tail n (rem_so2 c)) = Inr out"
  shows "sync_so2_data tr n c
           = (Inr (filter (\<lambda>l. l \<notin> set (map strip raw)) (map strip out) \<noteq> []),
              c\<lparr>calls := calls c @ [RunCommand (Tail n (rem_so2 c))],
                files := (files c)(loc_so2 c \<mapsto>
                   raw @ filter (\<lambda>l. l \<notin> set (map strip raw)) (map strip out))\<rparr>)"
  using assms
  by (simp add: sync_so2_data_def do_run_def Let_def write_unseen_filter del: set_map)

lemma filter_unseen_stripped:
  "map strip (filter P (map strip out)) = filter P (map strip out)"
  by (induction out) (simp_all add: strip_idem)

lemma second_pass_empty:
  "filter (\<lambda>l. l \<notin> set (map strip (raw @ filter (\<lambda>l. l \<notin> set (map strip raw)) (map strip out))))
     (map strip out) = []"
proof -
  have "map strip (raw @ filter (\<lambda>l. l \<notin> set (map strip raw)) (map strip out))
          = map strip raw @ filter (\<lambda>l. l \<notin> set (map strip raw)) (map strip out)"
    by (simp only: map_append filter_unseen_stripped)
  then show ?thesis
    by (auto simp: filter_empty_conv simp del: map_append)
qed

lemma ledger_link_simps [simp]:
  "run_command (ledger_link remote) (Tail n pth) = Inr (drop (length remote - n) remote)"
  "copy_remote_file (ledger_link remote) pth = Inr remote"
  by (simp_all add: ledger_link_def)

lemma tail_seen:
  "filter (\<lambda>l. l \<notin> set (map strip remote)) (map strip (drop k remote)) = []"
  by (auto simp: filter_empty_conv dest: in_set_dropD)

lemma sync_idempotent:
  fixes c :: client and remote :: "string list" and n :: nat
  defines "c1 \<equiv> snd (sync_so2_data (ledger_link remote) n c)"
  shows "sync_so2_data (ledger_link remote) n c1
           = (Inr False, c1\<lparr>calls := calls c1 @ [RunCommand (Tail n (rem_so2 c))]\<rparr>)"
proof (cases "files c (loc_so2 c)")
  case None
  have c1: "c1 = c\<lparr>calls := calls c @ [CopyRemoteFile (rem_so2 c) (loc_so2 c)],
                           files := (files c)(loc_so2 c \<mapsto> remote)\<rparr>"
    unfolding c1_def by (subst sync_bootstrap [OF None]) simp_all
  have f: "files c1 (loc_so2 c1) = Some remote"
    by (simp add: c1)
  have r: "rem_so2 c1 = rem_so2 c" "loc_so2 c1 = loc_so2 c"
    by (simp_all add: c1)
  show ?thesis
    by (subst sync_incremental [OF f ledger_link_simps(1)])
       (simp add: tail_seen r del: set_map, simp add: c1)
next
  case (Some raw)
  define new where
    "new = filter (\<lambda>l. l \<notin> set (map strip raw))
             (map strip (drop (length remote - n) remote))"
  have c1: "c1 = c\<lparr>calls := calls c @ [RunCommand (Tail n (rem_so2 c))],
                files := (files c)(loc_so2 c \<mapsto> raw @ new)\<rparr>"
    unfolding c1_def new_def by (subst sync_incremental [OF Some ledger_link_simps(1)]) simp
  have f: "files c1 (loc_so2 c1) = Some (raw @ new)"
    by (simp add: c1)
  have r: "rem_so2 c1 = rem_so2 c" "loc_so2 c1 = loc_so2 c"
    by (simp_all add: c1)
  have e: "filter (\<lambda>l. l \<notin> set (map strip (raw @ new)))
             (map strip (drop (length remote - n) remote)) = []"
    unfolding new_def by (rule second_pass_empty)
  show ?thesis
    by (subst sync_incremental [OF f ledger_link_simps(1)])
       (simp add: e r del: set_map map_append, simp add: c1)
qed


text \<open>
  C3. Without a local replica the sync copies the whole remote file and returns true.
  With a local replica it appends the fetched tail lines that are not among the local
  lines (both compared stripped), returns true exactly when there is such a line, and
  that is exactly when the local files have changed. A second sync over a working link
  with the remote ledger unchanged returns false and changes no file.
\<close>

theorem C3_updated_iff_changed:
  "(files c (loc_so2 c) = None \<and> copy_remote_file tr (rem_so2 c) = Inr content \<longrightarrow>
      fst (sync_so2_data tr n c) = Inr True
    \<and> files (snd (sync_so2_data tr n c)) = (files c)(loc_so2 c \<mapsto> content))
   \<and> (files c (loc_so2 c) = Some raw \<and> run_command tr (Tail n (rem_so2 c)) = Inr out \<longrightarrow>
      files (snd (sync_so2_data tr n c))
        = (files c)(loc_so2 c \<mapsto>
             raw @ filter (\<lambda>l. l \<notin> set (map strip raw)) (map strip out))
    \<and> fst (sync_so2_data tr n c)
        = Inr (\<exists>l \<in> set (map strip out). l \<notin> set (map strip raw))
    \<and> (fst (sync_so2_data tr n c) = Inr True
         \<longleftrightarrow> files (snd (sync_so2_data tr n c)) \<noteq> files c))
   \<and> sync_so2_data (ledger_link remote) n (snd (sync_so2_data (ledger_link remote) n c))
       = (Inr False,
          (snd (sync_so2_data (ledger_link remote) n c))
            \<lparr>calls := calls (snd (sync_so2_data (ledger_link remote) n c))
                        @ [RunCommand (Tail n (rem_so2 c))]\<rparr>)"
proof -
  have boot: "fst (sync_so2_data tr n c) = Inr True
    \<and> files (snd (sync_so2_data tr n c)) = (files c)(loc_so2 c \<mapsto> content)"
    if "files c (loc_so2 c) = None \<and> copy_remote_file tr (rem_so2 c) = Inr content"
    using that by (simp add: sync_bootstrap)
  have incr: "files (snd (sync_so2_data tr n c))
        = (files c)(loc_so2 c \<mapsto>
             raw @ filter (\<lambda>l. l \<notin> set (map strip raw)) (map strip out))
    \<and> fst (sync_so2_data tr n c)
        = Inr (\<exists>l \<in> set (map strip out). l \<notin> set (map strip raw))
    \<and> (fst (sync_so2_data tr n c) = Inr True
         \<longleftrightarrow> files (snd (sync_so2_data tr n c)) \<noteq> files c)"
    if a: "files c (loc_so2 c) = Some raw \<and> run_command tr (Tail n (rem_so2 c)) = Inr out"
  proof -
    define new where "new = filter (\<lambda>l. l \<notin> set (map strip raw)) (map strip out)"
    from a have s: "sync_so2_data tr n c
           = (Inr (new \<noteq> []),
              c\<lparr>calls := calls c @ [RunCommand (Tail n (rem_so2 c))],
                files := (files c)(loc_so2 c \<mapsto> raw @ new)\<rparr>)"
      unfolding new_def by (simp only: sync_incremental)
    have ne: "(new \<noteq> []) = (\<exists>l \<in> set (map strip out). l \<notin> set (map strip raw))"
      unfolding new_def by (simp only: filter_empty_conv) blast
    have ch: "((files c)(loc_so2 c \<mapsto> raw @ new) \<noteq> files c) = (new \<noteq> [])"
    proof
      assume "(files c)(loc_so2 c \<mapsto> raw @ new) \<noteq> files c"
      then show "new \<noteq> []"
        using a by (auto simp: fun_upd_idem)
    next
      assume n: "new \<noteq> []"
      have "((files c)(loc_so2 c \<mapsto> raw @ new)) (loc_so2 c) \<noteq> files c (loc_so2 c)"
        using a n by simp
      then show "(files c)(loc_so2 c \<mapsto> raw @ new) \<noteq> files c"
        by metis
    qed
    show ?thesis
      using ne ch by (simp add: s new_def [symmetric] del: set_map)
  qed
  from boot incr sync_idempotent [of remote n c] show ?thesis
    by blast
qed

theorem C3_updated_iff_changed_witness:
  "sync_so2_data (ledger_link [''Time'', ''r1'', ''r2''] ) 100
      \<lparr>folder = ''F'', files = Map.empty, calls = []\<rparr>
     = (Inr True,
        \<lparr>folder = ''F'', files = [''Results/F/so2_output.csv'' \<mapsto> [''Time'', ''r1'', ''r2'']],
         calls = [CopyRemoteFile ''/home/pi/drone/Results/F/so2_output.csv''
                    ''Results/F/so2_output.csv'']\<rparr>)
   \<and> fst (sync_so2_data (ledger_link [''Time'', ''r1'', ''r2'', ''r3'']) 100
      \<lparr>folder = ''F'', files = [''Results/F/so2_output.csv'' \<mapsto> [''Time'', ''r1'', ''r2'']],
       calls = []\<rparr>) = Inr True
   \<and> files (snd (sync_so2_data (ledger_link [''Time'', ''r1'', ''r2'', ''r3'']) 100
      \<lparr>folder = ''F'', files = [''Results/F/so2_output.csv'' \<mapsto> [''Time'', ''r1'', ''r2'']],
       calls = []\<rparr>)) ''Results/F/so2_output.csv'' = Some [''Time'', ''r1'', ''r2'', ''r3'']"
proof -
  have a: "sync_so2_data (ledger_link [''Time'', ''r1'', ''r2''] ) 100
      \<lparr>folder = ''F'', files = Map.empty, calls = []\<rparr>
     = (Inr True,
        \<lparr>folder = ''F'', files = [''Results/F/so2_output.csv'' \<mapsto> [''Time'', ''r1'', ''r2'']],
         calls = [CopyRemoteFile ''/home/pi/drone/Results/F/so2_output.csv''
                    ''Results/F/so2_output.csv'']\<rparr>)"
    using C3_updated_iff_changed [where c = "\<lparr>folder = ''F'', files = Map.empty, calls = []\<rparr>"
        and tr = "ledger_link [''Time'', ''r1'', ''r2'']" and content = "[''Time'', ''r1'', ''r2'']"
        and n = 100]
    by (simp add: loc_so2_def rem_so2_def sync_so2_data_def copy_so2_data_def do_copy_def)
  have b: "fst (sync_so2_data (ledger_link [''Time'', ''r1'', ''r2'', ''r3'']) 100
      \<lparr>folder = ''F'', files = [''Results/F/so2_output.csv'' \<mapsto> [''Time'', ''r1'', ''r2'']],
       calls = []\<rparr>) = Inr True
   \<and> files (snd (sync_so2_data (ledger_link [''Time'', ''r1'', ''r2'', ''r3'']) 100
      \<lparr>folder = ''F'', files = [''Results/F/so2_output.csv'' \<mapsto> [''Time'', ''r1'', ''r2'']],
       calls = []\<rparr>)) ''Results/F/so2_output.csv'' = Some [''Time'', ''r1'', ''r2'', ''r3'']"
    using C3_updated_iff_changed [where c = "\<lparr>folder = ''F'',
          files = [''Results/F/so2_output.csv'' \<mapsto> [''Time'', ''r1'', ''r2'']], calls = []\<rparr>"
        and tr = "ledger_link [''Time'', ''r1'', ''r2'', ''r3'']"
        and raw = "[''Time'', ''r1'', ''r2'']" and out = "[''Time'', ''r1'', ''r2'', ''r3'']"
        and n = 100]
    by (simp add: loc_so2_def rem_so2_def strip_def is_space_def)
  from a b show ?thesis by simp
qed

section \<open>Convergence and gap of the ledger sync\<close>










lemma strip_plain [simp]:
  "strip ''Time'' = ''Time''" "strip ''r1'' = ''r1''" "strip ''r2'' = ''r2''"
  "strip ''r3'' = ''r3''" "strip ''r4'' = ''r4''" "strip ''r5'' = ''r5''"
  by (simp_all add: strip_def is_space_def)



section \<open>Transport failures in the sync client\<close>






lemma files_to_sync_of_calls [simp]:
  "files_to_sync_of (c\<lparr>calls := cs\<rparr>) loc_folder out = files_to_sync_of c loc_folder out"
  by (simp add: files_to_sync_of_def)













section \<open>The log view across monitor cycles\<close>

text \<open>
  On an empty widget \<open>split\<close> gives one (empty) piece, so the first line of the log is
  skipped whatever it is.
\<close>

lemma update_log_empty_skips_first:
  "update_log [] (l # log_text) = fold (\<lambda>line d. appendPlainText (strip line) d) log_text []"
  by (simp add: update_log_def)

text \<open>
  C8, evaluated where it fails. The log widget is empty and the pulled log has the three
  lines a, b, c. The first cycle shows b and c: line a is never shown. The second
  cycle, with the log unchanged, counts two lines shown and appends the third line of
  the log again: c is shown twice.
\<close>

theorem C8_log_line_lost_and_repeated:
  "log_cycles [[''a'', ''b'', ''c'']] [] = ''b'' @ nl @ ''c''
   \<and> log_cycles [[''a'', ''b'', ''c''], [''a'', ''b'', ''c'']] [] = ''b'' @ nl @ ''c'' @ nl @ ''c''
   \<and> split_nl (log_cycles [[''a'', ''b'', ''c''], [''a'', ''b'', ''c'']] [])
       = [''b'', ''c'', ''c'']"
  by (simp add: update_log_def readlines_def appendPlainText_def nl_def strip_def is_space_def)

end
